theory Spec2Isabelle
  imports Main "HOL-Library.Multiset" "HOL-Library.AList"
begin

section \<open>Data model of the network topology diagram\<close>

text \<open>
  The diagram component of the website (\<^verbatim>\<open>toTree\<close>, \<^verbatim>\<open>nodeTypes\<close>, \<^verbatim>\<open>NetworkNode\<close>,
  \<^verbatim>\<open>edgeTypes\<close>, \<^verbatim>\<open>NetworkEdge\<close>, \<^verbatim>\<open>toCounts\<close>, \<^verbatim>\<open>stats\<close>) is embedded function by
  function. The device data module, the slug helper and the graph library are outside the
  component; what the component reads from them is a parameter of the embedded function.
\<close>

text \<open>\<^verbatim>\<open>NetworkItem["type"]\<close>: the keys of \<^verbatim>\<open>nodeTypes\<close>.\<close>

datatype NetworkItemType =
  Switch | Converter | AccessPoint | Camera | Microphone | Speaker | Interface | Server
  | Controlunit

text \<open>\<^verbatim>\<open>NestedNetworkItem["connection"]["type"]\<close>: the keys of \<^verbatim>\<open>edgeTypes\<close>.\<close>

datatype ConnectionType = Ethernet | Fiber | Wifi | Cloud | Coax

datatype NetworkConnection = NetworkConnection (ctype: ConnectionType)

text \<open>
  A device. The optional properties \<^verbatim>\<open>url\<close>, \<^verbatim>\<open>connection\<close> and \<^verbatim>\<open>links\<close> are options:
  \<open>None\<close> is a property that is not there. A \<^verbatim>\<open>NestedNetworkItem\<close> is an item whose
  \<open>connection\<close> is there.
\<close>

datatype NetworkItem =
  NetworkItem (name: string) (type: NetworkItemType) (model: string) (url: "string option")
    (connection: "NetworkConnection option") (links: "NetworkItem list option")

text \<open>The template literal \<^verbatim>\<open>${item.type}\<close>: the type as the string the data file writes.\<close>

fun type_str :: "NetworkItemType \<Rightarrow> string" where
  "type_str Switch = ''switch''"
| "type_str Converter = ''converter''"
| "type_str AccessPoint = ''accessPoint''"
| "type_str Camera = ''camera''"
| "type_str Microphone = ''microphone''"
| "type_str Speaker = ''speaker''"
| "type_str Interface = ''interface''"
| "type_str Server = ''server''"
| "type_str Controlunit = ''controlunit''"

record Data =
  label :: string
  item :: NetworkItem

text \<open>\<^verbatim>\<open>TreeNode<Data>\<close>, the record \<^verbatim>\<open>toTree\<close> builds for the layout component.\<close>

datatype TreeNode =
  TreeNode (tn_id: string) (tn_type: string) (tn_data: Data) (children: "TreeNode list")

section \<open>toTree\<close>

text \<open>
  \<^verbatim>\<open>items.map((item) => ({ id: convertToSlug(`${item.name}-${item.type}`), type: "network",
  data: { label: `${item.name} (${item.type})`, item },
  children: "links" in item && item.links ? toTree(item.links) : [] }))\<close>.
  \<open>convertToSlug\<close> is the slug helper of another module, a parameter here. An array is
  truthy also when it is empty, so the test is whether \<open>links\<close> is there.
\<close>

function toTree :: "(string \<Rightarrow> string) \<Rightarrow> NetworkItem list \<Rightarrow> TreeNode list" where
  "toTree convertToSlug items =
     map (\<lambda>item. TreeNode
            (convertToSlug (name item @ ''-'' @ type_str (type item)))
            ''network''
            \<lparr>label = name item @ '' ('' @ type_str (type item) @ '')'', item = item\<rparr>
            (case links item of Some ls \<Rightarrow> toTree convertToSlug ls | None \<Rightarrow> []))
         items"
  by pat_completeness auto
termination
proof (relation "measure (\<lambda>(s, items). size_list size items)")
  fix convertToSlug :: "string \<Rightarrow> string" and items :: "NetworkItem list" and x ls
  assume mem: "x \<in> set items" and l: "links x = Some ls"
  have "size x \<le> size_list size items"
    using mem by (simp add: size_list_estimation')
  moreover have "size_list size ls < size x"
    using l by (cases x) simp
  ultimately show "((convertToSlug, ls), (convertToSlug, items)) \<in> measure (\<lambda>(s, items). size_list size items)"
    by simp
qed simp

declare toTree.simps [simp del]

section \<open>nodeTypes\<close>

record NodeType =
  container :: string
  stats_flag :: bool
  eyebrow_name :: string
  eyebrow_color :: string

text \<open>
  The object literal \<^verbatim>\<open>nodeTypes\<close>. Its type \<^verbatim>\<open>{ [k in NetworkItem["type"]]: ... }\<close> has
  one entry for each type, so the lookup \<^verbatim>\<open>nodeTypes[key]\<close> is a total function;
  \<open>stats_flag\<close> is the entry's \<^verbatim>\<open>stats\<close>, \<open>eyebrow_name\<close> and \<open>eyebrow_color\<close> are
  \<^verbatim>\<open>eyebrow.name\<close> and \<^verbatim>\<open>eyebrow.color\<close>.
\<close>

fun nodeTypes :: "NetworkItemType \<Rightarrow> NodeType" where
  "nodeTypes Switch =
     \<lparr>container = ''border-blue-700'', stats_flag = True,
      eyebrow_name = ''Network Switch'', eyebrow_color = ''text-blue-700''\<rparr>"
| "nodeTypes Converter =
     \<lparr>container = ''border-blue-700 border-dashed'', stats_flag = False,
      eyebrow_name = ''Media Converter'', eyebrow_color = ''text-blue-700''\<rparr>"
| "nodeTypes AccessPoint =
     \<lparr>container = ''border-blue-400'', stats_flag = True,
      eyebrow_name = ''WiFi Access Point'', eyebrow_color = ''text-blue-400''\<rparr>"
| "nodeTypes Camera =
     \<lparr>container = ''border-green-700'', stats_flag = True,
      eyebrow_name = ''Camera'', eyebrow_color = ''text-green-700''\<rparr>"
| "nodeTypes Microphone =
     \<lparr>container = ''border-green-400'', stats_flag = True,
      eyebrow_name = ''Microphone'', eyebrow_color = ''text-green-400''\<rparr>"
| "nodeTypes Speaker =
     \<lparr>container = ''border-green-400'', stats_flag = False,
      eyebrow_name = ''Speaker'', eyebrow_color = ''text-green-400''\<rparr>"
| "nodeTypes Interface =
     \<lparr>container = ''border-green-400'', stats_flag = False,
      eyebrow_name = ''Audio I/O Interface'', eyebrow_color = ''text-green-400''\<rparr>"
| "nodeTypes Server =
     \<lparr>container = ''border-yellow-700'', stats_flag = False,
      eyebrow_name = ''Server'', eyebrow_color = ''text-yellow-700''\<rparr>"
| "nodeTypes Controlunit =
     \<lparr>container = ''border-red-700'', stats_flag = False,
      eyebrow_name = ''Camera Control Unit'', eyebrow_color = ''text-red-700''\<rparr>"

text \<open>
  Modelled from the spec: \<^verbatim>\<open>typeSafeObjectKeys\<close> of the helpers module is missing; on
  \<^verbatim>\<open>nodeTypes\<close> it gives the types in the fixed order in which the literal declares them.
\<close>

definition typeSafeObjectKeys_nodeTypes :: "NetworkItemType list" where
  "typeSafeObjectKeys_nodeTypes =
     [Switch, Converter, AccessPoint, Camera, Microphone, Speaker, Interface, Server,
      Controlunit]"

section \<open>toCounts and stats\<close>

text \<open>
  The values of the counting object are JavaScript numbers: a count, or \<^verbatim>\<open>NaN\<close>, which
  is what \<^verbatim>\<open>undefined + 1\<close> gives. The object is an association list in insertion order:
  assigning to a key that is there keeps its place, assigning to a new key appends it
  (\<^const>\<open>AList.update\<close>). Reading a key that is not there gives \<open>None\<close>, for
  \<^verbatim>\<open>undefined\<close>.
\<close>

datatype jsnum = Num nat | NaN

type_synonym counts = "(NetworkItemType \<times> jsnum) list"

fun js_add :: "jsnum \<Rightarrow> jsnum \<Rightarrow> jsnum" where
  "js_add (Num a) (Num b) = Num (a + b)"
| "js_add _ _ = NaN"

text \<open>A number is truthy unless it is 0 or \<^verbatim>\<open>NaN\<close>.\<close>

fun truthy :: "jsnum \<Rightarrow> bool" where
  "truthy (Num n) = (n \<noteq> 0)"
| "truthy NaN = False"

text \<open>The left operand of \<^verbatim>\<open>stats[item.type] += 1\<close>: \<^verbatim>\<open>undefined\<close> becomes \<^verbatim>\<open>NaN\<close>.\<close>

fun to_number :: "jsnum option \<Rightarrow> jsnum" where
  "to_number None = NaN"
| "to_number (Some v) = v"

text \<open>\<^verbatim>\<open>stats[key] || 0\<close>.\<close>

fun or_zero :: "jsnum option \<Rightarrow> jsnum" where
  "or_zero None = Num 0"
| "or_zero (Some v) = (if truthy v then v else Num 0)"

text \<open>
  \<^verbatim>\<open>typeSafeObjectKeys(nodeTypes).reduce((acc, key) => ({ ...acc, [key]: 0 }), {})\<close>
\<close>

definition init_counts :: counts where
  "init_counts =
     fold (\<lambda>key acc. AList.update key (Num 0) acc) typeSafeObjectKeys_nodeTypes []"

text \<open>
  The inner loop of \<^verbatim>\<open>toCounts\<close>, over the entries of the nested result
  (\<^verbatim>\<open>typeSafeObjectEntries\<close> gives the entries of the object in its order, here the
  association list itself): \<^verbatim>\<open>stats[key] = (stats[key] || 0) + value\<close>.
\<close>

definition add_nested :: "counts \<Rightarrow> counts \<Rightarrow> counts" where
  "add_nested nestedStats stats0 =
     fold (\<lambda>(key, value) stats1.
             AList.update key (js_add (or_zero (map_of stats1 key)) value) stats1)
          nestedStats stats0"

text \<open>
  \<^verbatim>\<open>toCounts\<close>: the object of zeros, then for each item \<^verbatim>\<open>stats[item.type] += 1\<close> and,
  when the item has \<^verbatim>\<open>links\<close>, the counts of \<^verbatim>\<open>toCounts(item.links)\<close> added key by key.
\<close>

function toCounts :: "NetworkItem list \<Rightarrow> counts" where
  "toCounts items =
     fold (\<lambda>item stats0.
             let stats1 = AList.update (type item)
                            (js_add (to_number (map_of stats0 (type item))) (Num 1)) stats0
             in (case links item of
                   Some ls \<Rightarrow> add_nested (toCounts ls) stats1
                 | None \<Rightarrow> stats1))
          items init_counts"
  by pat_completeness auto
termination
proof (relation "measure (size_list size)")
  fix items :: "NetworkItem list" and x ls
  assume mem: "x \<in> set items" and l: "links x = Some ls"
  have "size x \<le> size_list size items"
    using mem by (simp add: size_list_estimation')
  moreover have "size_list size ls < size x"
    using l by (cases x) simp
  ultimately show "(ls, items) \<in> measure (size_list size)"
    by simp
qed simp

declare toCounts.simps [simp del]

text \<open>
  \<^verbatim>\<open>typeSafeObjectEntries(toCounts(network)).filter(([key, value]) =>
  nodeTypes[key].stats && value)\<close>; \<open>network\<close> is the device tree of the data module.
\<close>

definition stats :: "NetworkItem list \<Rightarrow> counts" where
  "stats network =
     filter (\<lambda>(key, value). stats_flag (nodeTypes key) \<and> truthy value) (toCounts network)"

section \<open>The devices of a tree\<close>

text \<open>
  Every device of a tree, the roots and all nested descendants, parents before children:
  what the claims about counts and sizes are measured against.
\<close>

function all_devices :: "NetworkItem list \<Rightarrow> NetworkItem list" where
  "all_devices items =
     concat (map (\<lambda>item. item # (case links item of Some ls \<Rightarrow> all_devices ls | None \<Rightarrow> []))
                 items)"
  by pat_completeness auto
termination
proof (relation "measure (size_list size)")
  fix items :: "NetworkItem list" and x ls
  assume mem: "x \<in> set items" and l: "links x = Some ls"
  have "size x \<le> size_list size items"
    using mem by (simp add: size_list_estimation')
  moreover have "size_list size ls < size x"
    using l by (cases x) simp
  ultimately show "(ls, items) \<in> measure (size_list size)"
    by simp
qed simp

declare all_devices.simps [simp del]

text \<open>The number of devices of type \<open>k\<close> anywhere in the tree.\<close>

definition device_count :: "NetworkItemType \<Rightarrow> NetworkItem list \<Rightarrow> nat" where
  "device_count k items = count (mset (map type (all_devices items))) k"

text \<open>The number of nodes of a built tree, each node with all nodes under it.\<close>

fun count_nodes :: "TreeNode \<Rightarrow> nat" where
  "count_nodes (TreeNode i t d cs) = 1 + sum_list (map count_nodes cs)"

text \<open>Every node of a built forest, parents before children.\<close>

fun all_nodes :: "TreeNode \<Rightarrow> TreeNode list" where
  "all_nodes (TreeNode i t d cs) = TreeNode i t d cs # concat (map all_nodes cs)"

text \<open>The items directly under an item: its \<open>links\<close>, none when it has no \<open>links\<close>.\<close>

definition child_items :: "NetworkItem \<Rightarrow> NetworkItem list" where
  "child_items x = (case links x of Some ls \<Rightarrow> ls | None \<Rightarrow> [])"

text \<open>The counting object that holds \<open>f k\<close> for each type \<open>k\<close>, in the declared order.\<close>

definition counts_of :: "(NetworkItemType \<Rightarrow> nat) \<Rightarrow> counts" where
  "counts_of f = map (\<lambda>k. (k, Num (f k))) typeSafeObjectKeys_nodeTypes"

text \<open>The body of the loop of \<^const>\<open>toCounts\<close>, named for the proofs.\<close>

definition toCounts_step :: "NetworkItem \<Rightarrow> counts \<Rightarrow> counts" where
  "toCounts_step x stats0 =
     (let stats1 = AList.update (type x)
                     (js_add (to_number (map_of stats0 (type x))) (Num 1)) stats0
      in (case links x of
            Some ls \<Rightarrow> add_nested (toCounts ls) stats1
          | None \<Rightarrow> stats1))"

section \<open>NetworkNode\<close>

text \<open>An edge of the rendering surface, as \<^verbatim>\<open>useEdges\<close> gives it and as the edge component
  receives it in its props: the ids of its two end nodes.\<close>

record Edge =
  source :: string
  target :: string

datatype Position = Left | Top | Right | Bottom

text \<open>\<^verbatim>\<open>NodeProps<Data>\<close>, the fields the component reads. A position that the caller leaves
  out is \<open>None\<close>; the parameter defaults then apply.\<close>

record NodeProps =
  props_id :: string
  props_data :: Data
  targetPosition :: "Position option"
  sourcePosition :: "Position option"
  isConnectable :: bool

record Handle =
  handle_type :: string
  handle_position :: Position
  handle_isConnectable :: bool

text \<open>What the node component returns: the element, its attributes and what it contains.\<close>

record NodeView =
  element :: string
  className :: "string list"
  tabIndex :: int
  linkProps :: "(string \<times> string) list"
  targetHandle :: "Handle option"
  sourceHandle :: "Handle option"
  eyebrow :: "string \<times> string"
  name_text :: string
  model_text :: string
  model_underline :: bool
  externalIcon :: bool

text \<open>A string that may be missing is truthy when it is there and not empty.\<close>

fun str_truthy :: "string option \<Rightarrow> bool" where
  "str_truthy None = False"
| "str_truthy (Some s) = (s \<noteq> [])"

text \<open>
  The loop over the edges:
  \<^verbatim>\<open>if (!targetEdge && edge.target === id) targetEdge = edge;
  if (!sourceEdge && edge.source === id) sourceEdge = edge;
  if (targetEdge && sourceEdge) break;\<close>
  The pair is \<open>(targetEdge, sourceEdge)\<close>, \<open>None\<close> while the variable is undefined.
\<close>

fun scan_edges ::
  "string \<Rightarrow> Edge list \<Rightarrow> Edge option \<times> Edge option \<Rightarrow> Edge option \<times> Edge option" where
  "scan_edges nid [] (targetEdge, sourceEdge) = (targetEdge, sourceEdge)"
| "scan_edges nid (edge # rest) (targetEdge, sourceEdge) =
     (let targetEdge1 = (if targetEdge = None \<and> target edge = nid then Some edge else targetEdge);
          sourceEdge1 = (if sourceEdge = None \<and> source edge = nid then Some edge else sourceEdge)
      in if targetEdge1 \<noteq> None \<and> sourceEdge1 \<noteq> None then (targetEdge1, sourceEdge1)
         else scan_edges nid rest (targetEdge1, sourceEdge1))"

text \<open>
  \<^verbatim>\<open>NetworkNode\<close>. \<open>edges\<close> is what \<^verbatim>\<open>useEdges()\<close> returns. The element is \<^verbatim>\<open>"a"\<close> when
  \<^verbatim>\<open>data.item.url\<close> is truthy and \<^verbatim>\<open>"div"\<close> otherwise, the link props are there under the
  same test, and each handle is rendered under \<^verbatim>\<open>(targetEdge || isConnectable)\<close> and
  \<^verbatim>\<open>(sourceEdge || isConnectable)\<close>.
\<close>

definition NetworkNode :: "Edge list \<Rightarrow> NodeProps \<Rightarrow> NodeView" where
  "NetworkNode edges props =
     (let targetPos = (case targetPosition props of None \<Rightarrow> Top | Some p \<Rightarrow> p);
          sourcePos = (case sourcePosition props of None \<Rightarrow> Bottom | Some p \<Rightarrow> p);
          (targetEdge, sourceEdge) = scan_edges (props_id props) edges (None, None);
          it = item (props_data props)
      in \<lparr>element = (if str_truthy (url it) then ''a'' else ''div''),
          className =
            [''group flex h-20 w-44 cursor-pointer flex-col rounded-xl border-2 bg-white px-2 py-1 hover:min-w-min hover:shadow-md focus:min-w-min focus:shadow-md'',
             container (nodeTypes (type it))],
          tabIndex = - 1,
          linkProps =
            (case url it of
               Some href \<Rightarrow>
                 if href \<noteq> [] then
                   [(''href'', href), (''target'', ''_blank''), (''rel'', ''noopener noreferrer'')]
                 else []
             | None \<Rightarrow> []),
          targetHandle =
            (if targetEdge \<noteq> None \<or> isConnectable props then
               Some \<lparr>handle_type = ''target'', handle_position = targetPos,
                      handle_isConnectable = isConnectable props\<rparr>
             else None),
          sourceHandle =
            (if sourceEdge \<noteq> None \<or> isConnectable props then
               Some \<lparr>handle_type = ''source'', handle_position = sourcePos,
                      handle_isConnectable = isConnectable props\<rparr>
             else None),
          eyebrow = (eyebrow_name (nodeTypes (type it)), eyebrow_color (nodeTypes (type it))),
          name_text = name it,
          model_text = model it,
          model_underline = str_truthy (url it),
          externalIcon = str_truthy (url it)\<rparr>)"

section \<open>edgeTypes and NetworkEdge\<close>

record EdgeType =
  edge_name :: string
  stroke_color :: string
  stroke_dash :: "string option"

text \<open>The object literal \<^verbatim>\<open>edgeTypes\<close>, one entry for each connection type; \<open>edge_name\<close> is
  \<^verbatim>\<open>name\<close>, \<open>stroke_color\<close> and \<open>stroke_dash\<close> are \<^verbatim>\<open>stroke.color\<close> and \<^verbatim>\<open>stroke.dash\<close>.\<close>

fun edgeTypes :: "ConnectionType \<Rightarrow> EdgeType" where
  "edgeTypes Ethernet =
     \<lparr>edge_name = ''Ethernet'', stroke_color = ''stroke-blue-700'', stroke_dash = None\<rparr>"
| "edgeTypes Fiber =
     \<lparr>edge_name = ''Fiber'', stroke_color = ''stroke-blue-700'', stroke_dash = Some ''8 8''\<rparr>"
| "edgeTypes Wifi =
     \<lparr>edge_name = ''WiFi'', stroke_color = ''stroke-blue-400'', stroke_dash = Some ''4 8''\<rparr>"
| "edgeTypes Cloud =
     \<lparr>edge_name = ''Cloud'', stroke_color = ''stroke-yellow-700'', stroke_dash = Some ''4 8''\<rparr>"
| "edgeTypes Coax =
     \<lparr>edge_name = ''Coax'', stroke_color = ''stroke-red-700'', stroke_dash = Some ''16 8''\<rparr>"

text \<open>A node of the rendering surface, as \<^verbatim>\<open>useNodes<Data>()\<close> gives it.\<close>

record Node =
  node_id :: string
  node_data :: Data
  zIndex :: "int option"

text \<open>The two \<^verbatim>\<open>useState(false)\<close> flags of an edge.\<close>

record EdgeState =
  hovered :: bool
  focused :: bool

definition initial_state :: EdgeState where
  "initial_state = \<lparr>hovered = False, focused = False\<rparr>"

text \<open>
  The four event types the edge listens to on its parent element, and the listener it
  registers for each: \<^verbatim>\<open>mouseEnter = () => setHovered(true)\<close>,
  \<^verbatim>\<open>mouseLeave = () => setHovered(false)\<close>, \<^verbatim>\<open>focus = () => setFocused(true)\<close>,
  \<^verbatim>\<open>blur = () => setFocused(false)\<close>.
\<close>

datatype EdgeEvent = mouseenter | mouseleave | focus | blur

fun listener :: "EdgeEvent \<Rightarrow> EdgeState \<Rightarrow> EdgeState" where
  "listener mouseenter s = s\<lparr>hovered := True\<rparr>"
| "listener mouseleave s = s\<lparr>hovered := False\<rparr>"
| "listener focus s = s\<lparr>focused := True\<rparr>"
| "listener blur s = s\<lparr>focused := False\<rparr>"

record EdgeLabel =
  label_zIndex :: int
  label_text :: string

text \<open>What the edge component returns: the classes of the group around the path, the dash
  array of the path, and the floating label when there is one.\<close>

record EdgeView =
  g_className :: "string list"
  strokeDasharray :: "string option"
  edgeLabel :: "EdgeLabel option"

text \<open>
  The returned markup. The class list is what \<^verbatim>\<open>classes\<close> receives that is truthy: the stroke
  colour, and \<^verbatim>\<open>"opacity-75"\<close> under \<^verbatim>\<open>!hovered && !focused\<close>. The label is rendered under
  \<^verbatim>\<open>(hovered || focused)\<close>, with \<^verbatim>\<open>zIndex: ((nodes[0] && nodes[0].zIndex) || 0) + 1\<close>. The
  path and the label position come from the graph library and are left out.
\<close>

definition edge_view :: "NetworkConnection \<Rightarrow> Node list \<Rightarrow> EdgeState \<Rightarrow> EdgeView" where
  "edge_view targetConnection nodes s =
     \<lparr>g_className =
        stroke_color (edgeTypes (ctype targetConnection))
        # (if \<not> hovered s \<and> \<not> focused s then [''opacity-75''] else []),
      strokeDasharray = stroke_dash (edgeTypes (ctype targetConnection)),
      edgeLabel =
        (if hovered s \<or> focused s then
           Some \<lparr>label_zIndex =
                    (case nodes of
                       [] \<Rightarrow> 0
                     | n # _ \<Rightarrow> (case zIndex n of None \<Rightarrow> 0 | Some z \<Rightarrow> z)) + 1,
                  label_text = edge_name (edgeTypes (ctype targetConnection))\<rparr>
         else None)\<rparr>"

text \<open>
  The loop over the nodes:
  \<^verbatim>\<open>if (!sourceNode && node.id === source) sourceNode = node;
  if (!targetNode && node.id === target) targetNode = node;
  if (sourceNode && targetNode) break;\<close>
  The pair is \<open>(sourceNode, targetNode)\<close>.
\<close>

fun scan_nodes ::
  "string \<Rightarrow> string \<Rightarrow> Node list \<Rightarrow> Node option \<times> Node option \<Rightarrow> Node option \<times> Node option" where
  "scan_nodes src tgt [] (sourceNode, targetNode) = (sourceNode, targetNode)"
| "scan_nodes src tgt (node # rest) (sourceNode, targetNode) =
     (let sourceNode1 = (if sourceNode = None \<and> node_id node = src then Some node else sourceNode);
          targetNode1 = (if targetNode = None \<and> node_id node = tgt then Some node else targetNode)
      in if sourceNode1 \<noteq> None \<and> targetNode1 \<noteq> None then (sourceNode1, targetNode1)
         else scan_nodes src tgt rest (sourceNode1, targetNode1))"

datatype Error =
  MissingSourceOrTarget  \<comment> \<open>\<^verbatim>\<open>throw new Error("Missing source or target")\<close>\<close>
| InvalidTarget  \<comment> \<open>\<^verbatim>\<open>throw new Error("Invalid target")\<close>\<close>
| TypeError  \<comment> \<open>reading \<^verbatim>\<open>.type\<close> of an undefined \<^verbatim>\<open>connection\<close>\<close>

text \<open>
  \<^verbatim>\<open>NetworkEdge\<close>. \<open>nodes\<close> is what \<^verbatim>\<open>useNodes<Data>()\<close> returns, \<open>s\<close> the current values of the
  two state flags. The type guard \<open>isNestedNetworkItem\<close> belongs to the device data module
  and is a parameter. After the guard the component reads
  \<^verbatim>\<open>targetNode.data.item.connection\<close> and then its \<^verbatim>\<open>.type\<close>, which throws when the connection
  is undefined.
\<close>

definition NetworkEdge ::
  "(NetworkItem \<Rightarrow> bool) \<Rightarrow> Node list \<Rightarrow> Edge \<Rightarrow> EdgeState \<Rightarrow> Error + EdgeView" where
  "NetworkEdge isNestedNetworkItem nodes props s =
     (case scan_nodes (source props) (target props) nodes (None, None) of
        (Some sourceNode, Some targetNode) \<Rightarrow>
          if \<not> isNestedNetworkItem (item (node_data targetNode)) then Inl InvalidTarget
          else (case connection (item (node_data targetNode)) of
                  None \<Rightarrow> Inl TypeError
                | Some targetConnection \<Rightarrow> Inr (edge_view targetConnection nodes s))
      | _ \<Rightarrow> Inl MissingSourceOrTarget)"

text \<open>
  Modelled from the spec: \<^verbatim>\<open>isNestedNetworkItem\<close> of the device data module is missing; a
  nested item is an item that carries a \<open>connection\<close>.
\<close>

definition isNestedNetworkItem :: "NetworkItem \<Rightarrow> bool" where
  "isNestedNetworkItem it = (connection it \<noteq> None)"

section \<open>The anchor of an edge and its parent element\<close>

text \<open>
  The parent element of the edge's group: its attributes in order, and its event
  listeners. A listener is an event type with the identity of the closure registered for
  it; the closures of one call of the ref callback carry that call's number.
\<close>

record Element =
  attributes :: "(string \<times> string) list"
  listeners :: "(EdgeEvent \<times> nat) list"

text \<open>The document: elements by address. The group knows its parent's address, if any.\<close>

type_synonym dom = "nat \<Rightarrow> Element"

record SVGGElement =
  parentElement :: "nat option"

definition hasAttribute :: "Element \<Rightarrow> string \<Rightarrow> bool" where
  "hasAttribute el a = (map_of (attributes el) a \<noteq> None)"

definition setAttribute :: "string \<Rightarrow> string \<Rightarrow> Element \<Rightarrow> Element" where
  "setAttribute a v el = el\<lparr>attributes := AList.update a v (attributes el)\<rparr>"

definition removeAttribute :: "string \<Rightarrow> Element \<Rightarrow> Element" where
  "removeAttribute a el = el\<lparr>attributes := AList.delete a (attributes el)\<rparr>"

text \<open>Registering the same closure for the same type twice has no effect.\<close>

definition addEventListener :: "EdgeEvent \<Rightarrow> nat \<Rightarrow> Element \<Rightarrow> Element" where
  "addEventListener t k el =
     (if (t, k) \<in> set (listeners el) then el
      else el\<lparr>listeners := listeners el @ [(t, k)]\<rparr>)"

definition removeEventListener :: "EdgeEvent \<Rightarrow> nat \<Rightarrow> Element \<Rightarrow> Element" where
  "removeEventListener t k el = el\<lparr>listeners := removeAll (t, k) (listeners el)\<rparr>"

text \<open>
  The closure stored in \<^verbatim>\<open>cleanup.current\<close>: the variables it captured, which are the
  parent, the four listeners (their call number) and \<^verbatim>\<open>setTabIndex\<close>.
\<close>

record Cleanup =
  cleanup_parent :: nat
  cleanup_closures :: nat
  setTabIndex :: bool

text \<open>Running the stored closure: the four listeners are removed, and the attribute too
  \<^verbatim>\<open>if (setTabIndex)\<close>.\<close>

definition run_cleanup :: "Cleanup \<Rightarrow> dom \<Rightarrow> dom" where
  "run_cleanup c d =
     (let p = cleanup_parent c; k = cleanup_closures c;
          el1 = removeEventListener blur k
                  (removeEventListener focus k
                    (removeEventListener mouseleave k
                      (removeEventListener mouseenter k (d p))));
          el2 = (if setTabIndex c then removeAttribute ''tabindex'' el1 else el1)
      in d(p := el2))"

text \<open>
  The ref callback of the group. The state is \<^verbatim>\<open>cleanup.current\<close> with the document; \<open>k\<close> is
  the number of this call, \<open>node\<close> the group, or \<open>None\<close> for \<^verbatim>\<open>null\<close> when the group is
  unmounted. A stored cleanup runs first; then, for a node with a parent, the listeners are
  added, the attribute is set when \<^verbatim>\<open>!parent.hasAttribute("tabindex")\<close>, and the new cleanup
  is stored.
\<close>

definition ref :: "nat \<Rightarrow> SVGGElement option \<Rightarrow> Cleanup option \<times> dom \<Rightarrow> Cleanup option \<times> dom" where
  "ref k node st =
     (let (current, d) = st;
          d0 = (case current of Some c \<Rightarrow> run_cleanup c d | None \<Rightarrow> d)
      in case node of
           None \<Rightarrow> (None, d0)
         | Some n \<Rightarrow>
             (case parentElement n of
                None \<Rightarrow> (None, d0)
              | Some p \<Rightarrow>
                  let el1 = addEventListener blur k
                              (addEventListener focus k
                                (addEventListener mouseleave k
                                  (addEventListener mouseenter k (d0 p))));
                      grant = \<not> hasAttribute el1 ''tabindex'';
                      el2 = (if grant then setAttribute ''tabindex'' ''-1'' el1 else el1)
                  in (Some \<lparr>cleanup_parent = p, cleanup_closures = k, setTabIndex = grant\<rparr>,
                      d0(p := el2))))"

text \<open>
  The browser delivering an event of type \<open>t\<close> to the element: every listener registered
  for that type is called, in the order of registration. The listeners of the element are
  closures of this edge, so each call is \<^const>\<open>listener\<close> of that type on the two flags.
\<close>

definition dispatchEvent :: "EdgeEvent \<Rightarrow> Element \<Rightarrow> EdgeState \<Rightarrow> EdgeState" where
  "dispatchEvent t el s =
     fold (\<lambda>(t', k) s'. if t' = t then listener t' s' else s') (listeners el) s"

section \<open>The two states of an edge, as rendered\<close>

text \<open>
  An edge is shown active when it is at full opacity with its floating label, and idle
  when it is at reduced opacity without the label.
\<close>

definition is_active :: "EdgeView \<Rightarrow> bool" where
  "is_active v = (edgeLabel v \<noteq> None \<and> ''opacity-75'' \<notin> set (g_className v))"

definition is_idle :: "EdgeView \<Rightarrow> bool" where
  "is_idle v = (edgeLabel v = None \<and> ''opacity-75'' \<in> set (g_className v))"

text \<open>The four listeners of one call of the ref callback, added and removed together.\<close>

definition with_listeners :: "nat \<Rightarrow> Element \<Rightarrow> Element" where
  "with_listeners k el =
     addEventListener blur k
       (addEventListener focus k (addEventListener mouseleave k (addEventListener mouseenter k el)))"

definition without_listeners :: "nat \<Rightarrow> Element \<Rightarrow> Element" where
  "without_listeners k el =
     removeEventListener blur k
       (removeEventListener focus k
         (removeEventListener mouseleave k (removeEventListener mouseenter k el)))"

section \<open>Example data\<close>

text \<open>A small device tree: a switch with a camera on fiber and a microphone on WiFi under
  it, and a server beside it.\<close>

definition example_network :: "NetworkItem list" where
  "example_network =
     [NetworkItem ''sw'' Switch ''m'' None None
        (Some [NetworkItem ''a'' Camera ''m'' None (Some (NetworkConnection Fiber)) None,
               NetworkItem ''b'' Microphone ''m'' None (Some (NetworkConnection Wifi)) None]),
      NetworkItem ''srv'' Server ''m'' None None None]"

text \<open>The same devices in another shape: the server first, then the switch with the camera
  under it and the microphone under the camera.\<close>

definition example_chain :: "NetworkItem list" where
  "example_chain =
     [NetworkItem ''srv'' Server ''m'' None None None,
      NetworkItem ''sw'' Switch ''m'' None None
        (Some [NetworkItem ''a'' Camera ''m'' None (Some (NetworkConnection Fiber))
                 (Some [NetworkItem ''b'' Microphone ''m'' None
                          (Some (NetworkConnection Wifi)) None])])]"

text \<open>The nodes of a rendering surface: a switch, and a camera connected by fiber; and the
  edge from the switch to the camera.\<close>

definition example_edge :: Edge where
  "example_edge = \<lparr>source = ''sw-switch'', target = ''cam-camera''\<rparr>"

definition example_nodes :: "Node list" where
  "example_nodes =
     [\<lparr>node_id = ''sw-switch'',
        node_data = \<lparr>label = ''sw (switch)'',
                      item = NetworkItem ''sw'' Switch ''m'' None None None\<rparr>,
        zIndex = Some 5\<rparr>,
      \<lparr>node_id = ''cam-camera'',
        node_data = \<lparr>label = ''cam (camera)'',
                      item = NetworkItem ''cam'' Camera ''m'' None
                               (Some (NetworkConnection Fiber)) None\<rparr>,
        zIndex = None\<rparr>]"

text \<open>The props of the camera's node, not connectable.\<close>

definition example_props :: NodeProps where
  "example_props =
     \<lparr>props_id = ''cam-camera'',
      props_data = \<lparr>label = ''cam (camera)'',
                     item = NetworkItem ''cam'' Camera ''m'' None
                              (Some (NetworkConnection Fiber)) None\<rparr>,
      targetPosition = None, sourcePosition = None, isConnectable = False\<rparr>"

text \<open>The same node with an external link.\<close>

definition example_link_props :: NodeProps where
  "example_link_props =
     \<lparr>props_id = ''cam-camera'',
      props_data = \<lparr>label = ''cam (camera)'',
                     item = NetworkItem ''cam'' Camera ''m'' (Some ''https://example.org/cam'')
                              (Some (NetworkConnection Fiber)) None\<rparr>,
      targetPosition = None, sourcePosition = None, isConnectable = False\<rparr>"

text \<open>A document in which every element has the given attributes and no listeners.\<close>

definition example_document :: "(string \<times> string) list \<Rightarrow> dom" where
  "example_document attrs = (\<lambda>a. \<lparr>attributes = attrs, listeners = []\<rparr>)"

section \<open>Unfolding the recursive functions\<close>

lemma toTree_Nil: "toTree s [] = []"
  by (simp add: toTree.simps)

lemma toTree_Cons:
  "toTree s (x # xs) =
     TreeNode (s (name x @ ''-'' @ type_str (type x))) ''network''
       \<lparr>label = name x @ '' ('' @ type_str (type x) @ '')'', item = x\<rparr>
       (case links x of Some ls \<Rightarrow> toTree s ls | None \<Rightarrow> []) # toTree s xs"
  by (simp add: toTree.simps[of s "x # xs"] toTree.simps[of s xs])

lemma all_devices_Nil: "all_devices [] = []"
  by (simp add: all_devices.simps)

lemma all_devices_Cons:
  "all_devices (x # xs) =
     x # (case links x of Some ls \<Rightarrow> all_devices ls | None \<Rightarrow> []) @ all_devices xs"
  by (simp add: all_devices.simps[of "x # xs"] all_devices.simps[of xs])

lemma keys_distinct: "distinct typeSafeObjectKeys_nodeTypes"
  by (simp add: typeSafeObjectKeys_nodeTypes_def)

lemma keys_all: "k \<in> set typeSafeObjectKeys_nodeTypes"
  by (cases k) (simp_all add: typeSafeObjectKeys_nodeTypes_def)

lemma init_counts_eq: "init_counts = counts_of (\<lambda>k. 0)"
  by (simp add: init_counts_def counts_of_def typeSafeObjectKeys_nodeTypes_def)

lemma update_tabulated:
  "distinct ks \<Longrightarrow> k \<in> set ks \<Longrightarrow>
   AList.update k v (map (\<lambda>k. (k, g k)) ks) = map (\<lambda>k'. (k', if k' = k then v else g k')) ks"
  by (induction ks) auto

lemma map_of_tabulated:
  "k \<in> set ks \<Longrightarrow> map_of (map (\<lambda>k. (k, g k)) ks) k = Some (g k)"
  by (induction ks) auto

lemma map_of_counts_of: "map_of (counts_of f) k = Some (Num (f k))"
  unfolding counts_of_def by (rule map_of_tabulated) (rule keys_all)

lemma update_counts_of:
  "AList.update k (Num n) (counts_of f) = counts_of (f(k := n))"
  unfolding counts_of_def
  by (subst update_tabulated[OF keys_distinct keys_all]) (simp add: fun_upd_def)

lemma js_add_or_zero: "js_add (or_zero (Some (Num n))) (Num m) = Num (n + m)"
  by simp

lemma add_entries:
  "fold (\<lambda>(key, value) stats1.
            AList.update key (js_add (or_zero (map_of stats1 key)) value) stats1)
        (map (\<lambda>k. (k, Num (g k))) ks) (counts_of f)
   = counts_of (\<lambda>k. f k + count_list ks k * g k)"
proof (induction ks arbitrary: f)
  case Nil
  show ?case by simp
next
  case (Cons a ks)
  have eq: "(\<lambda>k. (f(a := f a + g a)) k + count_list ks k * g k)
            = (\<lambda>k. f k + count_list (a # ks) k * g k)"
    by (auto simp: fun_eq_iff)
  have "fold (\<lambda>(key, value) stats1.
            AList.update key (js_add (or_zero (map_of stats1 key)) value) stats1)
        (map (\<lambda>k. (k, Num (g k))) (a # ks)) (counts_of f)
      = fold (\<lambda>(key, value) stats1.
            AList.update key (js_add (or_zero (map_of stats1 key)) value) stats1)
        (map (\<lambda>k. (k, Num (g k))) ks) (counts_of (f(a := f a + g a)))"
    by (simp only: list.map fold_Cons o_apply prod.case map_of_counts_of js_add_or_zero
          update_counts_of)
  also have "\<dots> = counts_of (\<lambda>k. (f(a := f a + g a)) k + count_list ks k * g k)"
    by (rule Cons.IH)
  finally show ?case by (simp only: eq)
qed

lemma count_list_keys: "count_list typeSafeObjectKeys_nodeTypes k = 1"
  by (cases k) (simp_all add: typeSafeObjectKeys_nodeTypes_def)

lemma add_nested_counts_of:
  "add_nested (counts_of g) (counts_of f) = counts_of (\<lambda>k. f k + g k)"
  unfolding add_nested_def
  by (subst (1) counts_of_def) (simp add: add_entries count_list_keys)


lemma toCounts_fold: "toCounts items = fold toCounts_step items init_counts"
  by (simp add: toCounts.simps[of items] toCounts_step_def[abs_def])

lemma device_count_Nil: "device_count k [] = 0"
  by (simp add: device_count_def all_devices_Nil)

lemma device_count_Cons:
  "device_count k (x # xs) =
     (if type x = k then 1 else 0) + device_count k (child_items x) + device_count k xs"
  by (cases "links x") (simp_all add: device_count_def all_devices_Cons all_devices_Nil child_items_def)

lemma fold_step_counts:
  assumes "\<And>y f. y \<in> set ls \<Longrightarrow>
             toCounts_step y (counts_of f) = counts_of (\<lambda>k. f k + device_count k [y])"
  shows "fold toCounts_step ls (counts_of f) = counts_of (\<lambda>k. f k + device_count k ls)"
  using assms
proof (induction ls arbitrary: f)
  case Nil
  show ?case by (simp add: device_count_Nil)
next
  case (Cons y ls)
  have "fold toCounts_step (y # ls) (counts_of f)
        = fold toCounts_step ls (counts_of (\<lambda>k. f k + device_count k [y]))"
    by (simp add: Cons.prems)
  also have "\<dots> = counts_of (\<lambda>k. (f k + device_count k [y]) + device_count k ls)"
    by (rule Cons.IH) (simp add: Cons.prems)
  also have "(\<lambda>k. (f k + device_count k [y]) + device_count k ls)
             = (\<lambda>k. f k + device_count k (y # ls))"
    by (simp add: fun_eq_iff device_count_Cons device_count_Nil)
  finally show ?case .
qed

lemma step_counts:
  "toCounts_step x (counts_of f) = counts_of (\<lambda>k. f k + device_count k [x])"
proof (induction x arbitrary: f)
  case (NetworkItem n t m u c l)
  let ?x = "NetworkItem n t m u c l"
  have first: "AList.update t (js_add (to_number (map_of (counts_of f) t)) (Num 1)) (counts_of f)
               = counts_of (f(t := f t + 1))"
    by (simp add: map_of_counts_of update_counts_of)
  show ?case
  proof (cases l)
    case None
    have "toCounts_step ?x (counts_of f) = counts_of (f(t := f t + 1))"
      by (simp only: toCounts_step_def Let_def NetworkItem.sel None option.case first)
    also have "f(t := f t + 1) = (\<lambda>k. f k + device_count k [?x])"
      by (simp add: fun_eq_iff device_count_Cons device_count_Nil child_items_def None)
    finally show ?thesis .
  next
    case (Some ls)
    have "fold toCounts_step ls (counts_of (\<lambda>k. 0))
          = counts_of (\<lambda>k. 0 + device_count k ls)"
      by (rule fold_step_counts) (rule NetworkItem.IH, simp_all add: Some)
    then have nested: "toCounts ls = counts_of (\<lambda>k. device_count k ls)"
      by (simp add: toCounts_fold init_counts_eq)
    have "toCounts_step ?x (counts_of f)
          = counts_of (\<lambda>k. (f(t := f t + 1)) k + device_count k ls)"
      by (simp only: toCounts_step_def Let_def NetworkItem.sel Some option.case first nested
            add_nested_counts_of)
    also have "(\<lambda>k. (f(t := f t + 1)) k + device_count k ls)
               = (\<lambda>k. f k + device_count k [?x])"
      by (simp add: fun_eq_iff device_count_Cons device_count_Nil child_items_def Some)
    finally show ?thesis .
  qed
qed

lemma toCounts_counts_of: "toCounts items = counts_of (\<lambda>k. device_count k items)"
proof -
  have "fold toCounts_step items (counts_of (\<lambda>k. 0))
        = counts_of (\<lambda>k. 0 + device_count k items)"
    by (rule fold_step_counts) (rule step_counts)
  then show ?thesis
    by (simp add: toCounts_fold init_counts_eq)
qed

section \<open>The size and the levels of a built tree\<close>

lemma toTree_items: "map (item \<circ> tn_data) (toTree s items) = items"
  by (induction items) (simp_all add: toTree_Nil toTree_Cons)

lemma count_nodes_list:
  assumes "\<And>x ls. x \<in> set items \<Longrightarrow> links x = Some ls \<Longrightarrow>
             sum_list (map count_nodes (toTree s ls)) = length (all_devices ls)"
  shows "sum_list (map count_nodes (toTree s items)) = length (all_devices items)"
  using assms
proof (induction items)
  case Nil
  show ?case by (simp add: toTree_Nil all_devices_Nil)
next
  case (Cons x xs)
  have rest: "sum_list (map count_nodes (toTree s xs)) = length (all_devices xs)"
    by (rule Cons.IH) (rule Cons.prems, simp_all)
  show ?case
  proof (cases "links x")
    case None
    then show ?thesis
      by (simp add: toTree_Cons all_devices_Cons rest toTree_Nil)
  next
    case (Some ls)
    have "sum_list (map count_nodes (toTree s ls)) = length (all_devices ls)"
      by (rule Cons.prems[of x]) (simp_all add: Some)
    then show ?thesis
      by (simp add: toTree_Cons all_devices_Cons rest Some)
  qed
qed

lemma count_nodes_toTree:
  "sum_list (map count_nodes (toTree s items)) = length (all_devices items)"
proof (induction items rule: all_devices.induct)
  case (1 items)
  show ?case
    by (rule count_nodes_list) (rule "1.IH")
qed

lemma children_list:
  assumes "\<And>x ls. x \<in> set items \<Longrightarrow> links x = Some ls \<Longrightarrow>
             \<forall>n \<in> set (concat (map all_nodes (toTree s ls))).
               children n = toTree s (child_items (item (tn_data n)))"
  shows "\<forall>n \<in> set (concat (map all_nodes (toTree s items))).
           children n = toTree s (child_items (item (tn_data n)))"
  using assms
proof (induction items)
  case Nil
  show ?case by (simp add: toTree_Nil)
next
  case (Cons x xs)
  have rest: "\<forall>n \<in> set (concat (map all_nodes (toTree s xs))).
           children n = toTree s (child_items (item (tn_data n)))"
    by (rule Cons.IH) (rule Cons.prems, simp_all)
  show ?case
  proof (cases "links x")
    case None
    then show ?thesis
      using rest by (simp add: toTree_Cons child_items_def toTree_Nil)
  next
    case (Some ls)
    have "\<forall>n \<in> set (concat (map all_nodes (toTree s ls))).
           children n = toTree s (child_items (item (tn_data n)))"
      by (rule Cons.prems[of x]) (simp_all add: Some)
    then show ?thesis
      using rest by (auto simp: toTree_Cons child_items_def Some)
  qed
qed

lemma children_toTree:
  "\<forall>n \<in> set (concat (map all_nodes (toTree s items))).
           children n = toTree s (child_items (item (tn_data n)))"
proof (induction items rule: all_devices.induct)
  case (1 items)
  show ?case
    by (rule children_list) (rule "1.IH")
qed

section \<open>The two scans\<close>

lemma scan_nodes_acc:
  "scan_nodes src tgt nodes (a, b) =
     (case a of None \<Rightarrow> find (\<lambda>n. node_id n = src) nodes | Some x \<Rightarrow> Some x,
      case b of None \<Rightarrow> find (\<lambda>n. node_id n = tgt) nodes | Some x \<Rightarrow> Some x)"
  by (induction nodes arbitrary: a b) (auto simp: Let_def split: option.splits)

lemma scan_nodes_find:
  "scan_nodes src tgt nodes (None, None) =
     (find (\<lambda>n. node_id n = src) nodes, find (\<lambda>n. node_id n = tgt) nodes)"
  by (simp add: scan_nodes_acc)

lemma scan_edges_acc:
  "scan_edges nid edges (a, b) =
     (case a of None \<Rightarrow> find (\<lambda>e. target e = nid) edges | Some x \<Rightarrow> Some x,
      case b of None \<Rightarrow> find (\<lambda>e. source e = nid) edges | Some x \<Rightarrow> Some x)"
  by (induction edges arbitrary: a b) (auto simp: Let_def split: option.splits)

lemma scan_edges_find:
  "scan_edges nid edges (None, None) =
     (find (\<lambda>e. target e = nid) edges, find (\<lambda>e. source e = nid) edges)"
  by (simp add: scan_edges_acc)

lemma find_None_image: "(find (\<lambda>n. f n = k) xs = None) = (k \<notin> f ` set xs)"
  by (auto simp: find_None_iff)

lemma find_Some_ex: "(find P xs \<noteq> None) = (\<exists>x\<in>set xs. P x)"
  by (auto simp: find_None_iff)

section \<open>The edge view and the parent element\<close>

lemma stroke_not_opacity:
  "stroke_color (edgeTypes t) \<noteq> ''opacity-75''" "''opacity-75'' \<noteq> stroke_color (edgeTypes t)"
  by (cases t; simp)+

lemma active_iff: "is_active (edge_view c nodes s) = (hovered s \<or> focused s)"
  by (simp add: is_active_def edge_view_def stroke_not_opacity)

lemma idle_iff: "is_idle (edge_view c nodes s) = (\<not> (hovered s \<or> focused s))"
  by (auto simp add: is_idle_def edge_view_def stroke_not_opacity)

lemma attributes_addEventListener [simp]: "attributes (addEventListener t k el) = attributes el"
  by (simp add: addEventListener_def)

lemma attributes_removeEventListener [simp]:
  "attributes (removeEventListener t k el) = attributes el"
  by (simp add: removeEventListener_def)

lemma hasAttribute_attributes:
  "attributes el' = attributes el \<Longrightarrow> hasAttribute el' a = hasAttribute el a"
  by (simp add: hasAttribute_def)

lemma update_absent: "map_of al k = None \<Longrightarrow> AList.update k v al = al @ [(k, v)]"
  by (induction al) (auto split: if_splits)

lemma delete_absent: "map_of al k = None \<Longrightarrow> AList.delete k al = al"
  by (induction al) (auto split: if_splits)

lemma grant_revoke:
  "map_of al k = None \<Longrightarrow> AList.delete k (AList.update k v al) = al"
  by (simp add: delete_update_same delete_absent)

lemma hasAttribute_listeners [simp]:
  "hasAttribute (addEventListener t k el) a = hasAttribute el a"
  "hasAttribute (removeEventListener t k el) a = hasAttribute el a"
  by (simp_all add: hasAttribute_def)

lemma attributes_with_listeners [simp]:
  "attributes (with_listeners k el) = attributes el"
  "attributes (without_listeners k el) = attributes el"
  by (simp_all add: with_listeners_def without_listeners_def)

lemma mount_keeps:
  assumes "hasAttribute (d p) ''tabindex''"
  shows "ref k (Some \<lparr>parentElement = Some p\<rparr>) (None, d) =
           (Some \<lparr>cleanup_parent = p, cleanup_closures = k, setTabIndex = False\<rparr>,
            d(p := with_listeners k (d p)))"
  using assms by (simp add: ref_def Let_def with_listeners_def)

lemma mount_grants:
  assumes "\<not> hasAttribute (d p) ''tabindex''"
  shows "ref k (Some \<lparr>parentElement = Some p\<rparr>) (None, d) =
           (Some \<lparr>cleanup_parent = p, cleanup_closures = k, setTabIndex = True\<rparr>,
            d(p := setAttribute ''tabindex'' ''-1'' (with_listeners k (d p))))"
  using assms by (simp add: ref_def Let_def with_listeners_def)

lemma unmount_runs:
  "ref k' None (Some c, d1) =
     (None, d1(cleanup_parent c :=
        (if setTabIndex c
         then removeAttribute ''tabindex'' (without_listeners (cleanup_closures c) (d1 (cleanup_parent c)))
         else without_listeners (cleanup_closures c) (d1 (cleanup_parent c)))))"
  by (simp add: ref_def run_cleanup_def Let_def without_listeners_def)


section \<open>Events on the parent element\<close>

lemma listener_idem: "listener t (listener t s) = listener t s"
  by (cases t) simp_all

lemma fold_listeners:
  "fold (\<lambda>(t', k) s'. if t' = t then listener t' s' else s') ls s
     = (if t \<in> fst ` set ls then listener t s else s)"
proof (induction ls arbitrary: s)
  case Nil
  show ?case by simp
next
  case (Cons a ls)
  obtain t' k where a: "a = (t', k)" by (cases a)
  show ?case
    by (simp add: a Cons.IH listener_idem)
qed

lemma dispatchEvent_registered:
  "dispatchEvent t el s = (if t \<in> fst ` set (listeners el) then listener t s else s)"
  by (simp add: dispatchEvent_def fold_listeners)

lemma set_listeners_add:
  "set (listeners (addEventListener t k el)) = insert (t, k) (set (listeners el))"
  by (auto simp: addEventListener_def)

lemma set_listeners_with:
  "set (listeners (with_listeners k el))
     = {(mouseenter, k), (mouseleave, k), (focus, k), (blur, k)} \<union> set (listeners el)"
  by (auto simp: with_listeners_def set_listeners_add)

lemma listeners_setAttribute [simp]: "listeners (setAttribute a v el) = listeners el"
  by (simp add: setAttribute_def)

lemma listeners_removeAttribute [simp]: "listeners (removeAttribute a el) = listeners el"
  by (simp add: removeAttribute_def)

lemma listeners_without:
  "listeners (without_listeners k el)
     = filter (\<lambda>l. l \<notin> {(mouseenter, k), (mouseleave, k), (focus, k), (blur, k)}) (listeners el)"
  by (induction "listeners el" arbitrary: el)
     (auto simp: without_listeners_def removeEventListener_def removeAll_filter_not_eq
        intro: filter_cong)

lemma mounted_listeners:
  assumes "ref k (Some \<lparr>parentElement = Some p\<rparr>) (None, d) = (mounted, d1)"
  shows "listeners (d1 p) = listeners (with_listeners k (d p))"
    and "map_option cleanup_parent mounted = Some p"
    and "map_option cleanup_closures mounted = Some k"
proof -
  have "listeners (d1 p) = listeners (with_listeners k (d p))
        \<and> map_option cleanup_parent mounted = Some p
        \<and> map_option cleanup_closures mounted = Some k"
  proof (cases "hasAttribute (d p) ''tabindex''")
    case True
    show ?thesis
      using assms mount_keeps[of d p k, OF True] by auto
  next
    case False
    show ?thesis
      using assms mount_grants[of d p k, OF False] by auto
  qed
  then show "listeners (d1 p) = listeners (with_listeners k (d p))"
    and "map_option cleanup_parent mounted = Some p"
    and "map_option cleanup_closures mounted = Some k"
    by simp_all
qed

lemma unmounted_listeners:
  assumes "ref k (Some \<lparr>parentElement = Some p\<rparr>) (None, d) = (mounted, d1)"
    and "ref k' None (mounted, d1) = (unmounted, d2)"
  shows "listeners (d2 p) = listeners (without_listeners k (with_listeners k (d p)))"
proof -
  obtain c where c: "mounted = Some c" "cleanup_parent c = p" "cleanup_closures c = k"
    using mounted_listeners(2,3)[OF assms(1)] by auto
  have "d2 = d1(p := (if setTabIndex c
                      then removeAttribute ''tabindex'' (without_listeners k (d1 p))
                      else without_listeners k (d1 p)))"
    using assms(2) unfolding c(1) unmount_runs by (auto simp: c)
  then have "listeners (d2 p) = listeners (without_listeners k (d1 p))"
    by simp
  also have "\<dots> = listeners (without_listeners k (with_listeners k (d p)))"
    by (simp add: listeners_without mounted_listeners(1)[OF assms(1)])
  finally show ?thesis .
qed

section \<open>StatsAggregator\<close>

text \<open>
  C1. For every device tree, \<^const>\<open>stats\<close> (\<^const>\<open>toCounts\<close>, then the filter) is the
  list of the pairs of a type and the number of devices of that type anywhere in the tree,
  nested children at any depth included, for the types whose entry in \<^const>\<open>nodeTypes\<close>
  has the stats flag and whose number is not zero, in the declared order of the types;
  read as a mapping, it holds exactly these types. For one root switch with two nested
  cameras it is switch: 1, camera: 2.
\<close>

theorem stats_counts_devices:
  "stats network =
     map (\<lambda>k. (k, Num (device_count k network)))
       (filter (\<lambda>k. stats_flag (nodeTypes k) \<and> device_count k network \<noteq> 0)
          typeSafeObjectKeys_nodeTypes)
   \<and> map_of (stats network) k =
       (if stats_flag (nodeTypes k) \<and> device_count k network \<noteq> 0
        then Some (Num (device_count k network)) else None)
   \<and> stats [NetworkItem n Switch m u c
              (Some [NetworkItem n1 Camera m1 u1 c1 None, NetworkItem n2 Camera m2 u2 c2 None])]
       = [(Switch, Num 1), (Camera, Num 2)]"
proof -
  have list: "stats network =
     map (\<lambda>k. (k, Num (device_count k network)))
       (filter (\<lambda>k. stats_flag (nodeTypes k) \<and> device_count k network \<noteq> 0)
          typeSafeObjectKeys_nodeTypes)" for network
    by (simp add: stats_def toCounts_counts_of counts_of_def filter_map o_def)
  have "map_of (stats network) k =
       (if stats_flag (nodeTypes k) \<and> device_count k network \<noteq> 0
        then Some (Num (device_count k network)) else None)"
    unfolding list
    by (simp add: map_of_map_restrict restrict_map_def keys_all)
  moreover have "stats [NetworkItem n Switch m u c
              (Some [NetworkItem n1 Camera m1 u1 c1 None, NetworkItem n2 Camera m2 u2 c2 None])]
       = [(Switch, Num 1), (Camera, Num 2)]"
    by (simp add: list device_count_Cons device_count_Nil child_items_def
          typeSafeObjectKeys_nodeTypes_def)
  ultimately show ?thesis
    using list by blast
qed

section \<open>TreeBuilder\<close>

text \<open>
  C2. For every list of root items, the nodes that \<^const>\<open>toTree\<close> builds, each counted
  with all nodes under it through \<open>children\<close>, are as many as the devices of the input,
  roots and nested descendants. The order of the input is kept at every level: the items
  of the built roots are the input in its order, and the items of the children of every
  built node, at any depth, are the \<open>links\<close> of that node's item in their order.
\<close>

theorem toTree_node_count:
  "sum_list (map count_nodes (toTree convertToSlug items)) = length (all_devices items)
   \<and> map (item \<circ> tn_data) (toTree convertToSlug items) = items
   \<and> (\<forall>n \<in> set (concat (map all_nodes (toTree convertToSlug items))).
         map (item \<circ> tn_data) (children n) = child_items (item (tn_data n)))"
proof -
  have "\<forall>n \<in> set (concat (map all_nodes (toTree convertToSlug items))).
          map (item \<circ> tn_data) (children n) = child_items (item (tn_data n))"
    using children_toTree[of convertToSlug items] by (simp add: toTree_items)
  then show ?thesis
    by (simp add: count_nodes_toTree toTree_items)
qed

theorem toTree_node_count_witness:
  "sum_list (map count_nodes (toTree (\<lambda>s. s) example_network)) = 4
   \<and> map (item \<circ> tn_data) (children (hd (toTree (\<lambda>s. s) example_network)))
     = [NetworkItem ''a'' Camera ''m'' None (Some (NetworkConnection Fiber)) None,
        NetworkItem ''b'' Microphone ''m'' None (Some (NetworkConnection Wifi)) None]
   \<and> map tn_id (toTree (\<lambda>s. s) example_network) = [''sw-switch'', ''srv-server'']"
  using toTree_node_count [of "\<lambda>s. s" example_network]
  by (simp add: example_network_def toTree_Cons toTree_Nil all_devices_Cons all_devices_Nil
        child_items_def)

section \<open>EdgeRenderer\<close>

text \<open>
  C3. The edge is shown active exactly when the hovered flag or the focused flag is true,
  and idle exactly when neither is. Once the ref callback has mounted the group under its
  parent, a pointer-enter on the parent sets hovered, a pointer-leave clears it, a focus-in
  sets focused and a focus-out clears it, each leaving the other flag as it is. An edge in
  its initial state is idle; after pointer-enter it is active, after pointer-enter and
  pointer-leave it is idle, and after pointer-enter, pointer-leave and focus-in it is
  active. After the unmount, on a parent that had no listeners before, no listener is left
  and the events change nothing.
\<close>

theorem edge_state_machine:
  assumes mount: "ref k (Some \<lparr>parentElement = Some p\<rparr>) (None, d) = (mounted, d1)"
    and unmount: "ref k' None (mounted, d1) = (unmounted, d2)"
  shows "is_active (edge_view c nodes s) = (hovered s \<or> focused s)
   \<and> is_idle (edge_view c nodes s) = (\<not> (hovered s \<or> focused s))
   \<and> dispatchEvent mouseenter (d1 p) s = s\<lparr>hovered := True\<rparr>
   \<and> dispatchEvent mouseleave (d1 p) s = s\<lparr>hovered := False\<rparr>
   \<and> dispatchEvent focus (d1 p) s = s\<lparr>focused := True\<rparr>
   \<and> dispatchEvent blur (d1 p) s = s\<lparr>focused := False\<rparr>
   \<and> is_idle (edge_view c nodes initial_state)
   \<and> is_active (edge_view c nodes (dispatchEvent mouseenter (d1 p) initial_state))
   \<and> is_idle (edge_view c nodes
        (dispatchEvent mouseleave (d1 p) (dispatchEvent mouseenter (d1 p) initial_state)))
   \<and> is_active (edge_view c nodes
        (dispatchEvent focus (d1 p)
          (dispatchEvent mouseleave (d1 p) (dispatchEvent mouseenter (d1 p) initial_state))))
   \<and> (listeners (d p) = [] \<longrightarrow> listeners (d2 p) = [] \<and> dispatchEvent t (d2 p) s = s)"
proof -
  have reg: "t' \<in> fst ` set (listeners (d1 p))" for t'
    by (cases t') (simp_all add: mounted_listeners(1)[OF mount] set_listeners_with)
  have ev: "dispatchEvent t' (d1 p) s' = listener t' s'" for t' s'
    by (simp add: dispatchEvent_registered reg)
  have gone: "listeners (d2 p) = []" if "listeners (d p) = []"
    by (simp add: unmounted_listeners[OF mount unmount] listeners_without with_listeners_def
          addEventListener_def that)
  have after: "listeners (d p) = [] \<longrightarrow> listeners (d2 p) = [] \<and> dispatchEvent t (d2 p) s = s"
    by (simp add: gone dispatchEvent_def)
  show ?thesis
    by (simp add: ev active_iff idle_iff initial_state_def after)
qed

theorem edge_state_machine_witness:
  "dispatchEvent mouseenter
      (snd (ref 1 (Some \<lparr>parentElement = Some 0\<rparr>) (None, example_document [])) 0)
      initial_state = \<lparr>hovered = True, focused = False\<rparr>
   \<and> listeners (snd (ref 1 (Some \<lparr>parentElement = Some 0\<rparr>) (None, example_document [])) 0)
     = [(mouseenter, 1), (mouseleave, 1), (focus, 1), (blur, 1)]
   \<and> listeners (snd (ref 2 None
        (ref 1 (Some \<lparr>parentElement = Some 0\<rparr>) (None, example_document []))) 0) = []
   \<and> dispatchEvent mouseenter (snd (ref 2 None
        (ref 1 (Some \<lparr>parentElement = Some 0\<rparr>) (None, example_document []))) 0)
      initial_state = initial_state"
  using edge_state_machine [where k = 1 and p = 0 and k' = 2 and d = "example_document []"
          and s = initial_state and t = mouseenter,
          OF surjective_pairing surjective_pairing]
  by (simp add: example_document_def initial_state_def ref_def Let_def hasAttribute_def
        addEventListener_def setAttribute_def)

text \<open>
  C4. For every rendered edge, the stroke colour, the dash pattern and the name in the
  label are the entries of \<^const>\<open>edgeTypes\<close> for the connection type of the target node,
  the first node whose id is the edge's target; the source node has no part in them. The
  label is there exactly when hovered or focused. When the target's connection type is
  fiber, the stroke is that of fiber, and the label "Fiber" is displayed if and only if the
  edge is active.
\<close>

theorem edge_style_from_target:
  assumes "NetworkEdge g nodes props s = Inr v"
  shows "\<exists>targetNode targetConnection.
           find (\<lambda>n. node_id n = target props) nodes = Some targetNode
         \<and> connection (item (node_data targetNode)) = Some targetConnection
         \<and> v = edge_view targetConnection nodes s
         \<and> hd (g_className v) = stroke_color (edgeTypes (ctype targetConnection))
         \<and> strokeDasharray v = stroke_dash (edgeTypes (ctype targetConnection))
         \<and> map_option label_text (edgeLabel v) =
             (if hovered s \<or> focused s then Some (edge_name (edgeTypes (ctype targetConnection)))
              else None)
         \<and> (ctype targetConnection = Fiber \<longrightarrow>
               hd (g_className v) = ''stroke-blue-700'' \<and> strokeDasharray v = Some ''8 8''
             \<and> (map_option label_text (edgeLabel v) = Some ''Fiber'') = (hovered s \<or> focused s)
             \<and> (edgeLabel v = None) = (\<not> (hovered s \<or> focused s)))"
  using assms
  by (auto simp: NetworkEdge_def scan_nodes_find edge_view_def split: option.splits if_splits)

theorem edge_style_from_target_witness:
  "NetworkEdge isNestedNetworkItem example_nodes example_edge \<lparr>hovered = True, focused = False\<rparr>
     = Inr \<lparr>g_className = [''stroke-blue-700''], strokeDasharray = Some ''8 8'',
            edgeLabel = Some \<lparr>label_zIndex = 6, label_text = ''Fiber''\<rparr>\<rparr>
   \<and> NetworkEdge isNestedNetworkItem example_nodes example_edge initial_state
     = Inr \<lparr>g_className = [''stroke-blue-700'', ''opacity-75''], strokeDasharray = Some ''8 8'',
            edgeLabel = None\<rparr>"
proof -
  have a: "NetworkEdge isNestedNetworkItem example_nodes example_edge
             \<lparr>hovered = True, focused = False\<rparr>
           = Inr (edge_view (NetworkConnection Fiber) example_nodes
                    \<lparr>hovered = True, focused = False\<rparr>)"
    by (simp add: NetworkEdge_def isNestedNetworkItem_def example_nodes_def example_edge_def)
  have b: "NetworkEdge isNestedNetworkItem example_nodes example_edge initial_state
           = Inr (edge_view (NetworkConnection Fiber) example_nodes initial_state)"
    by (simp add: NetworkEdge_def isNestedNetworkItem_def example_nodes_def example_edge_def)
  have va: "edge_view (NetworkConnection Fiber) example_nodes \<lparr>hovered = True, focused = False\<rparr>
            = \<lparr>g_className = [''stroke-blue-700''], strokeDasharray = Some ''8 8'',
               edgeLabel = Some \<lparr>label_zIndex = 6, label_text = ''Fiber''\<rparr>\<rparr>"
    by (simp add: edge_view_def example_nodes_def)
  have vb: "edge_view (NetworkConnection Fiber) example_nodes initial_state
            = \<lparr>g_className = [''stroke-blue-700'', ''opacity-75''],
               strokeDasharray = Some ''8 8'', edgeLabel = None\<rparr>"
    by (simp add: edge_view_def initial_state_def)
  show ?thesis
    using edge_style_from_target [OF a] edge_style_from_target [OF b]
    by (simp add: a b va vb)
qed

text \<open>
  C5. The scan over the nodes, with its early exit, gives the first node whose id is the
  edge's source and the first node whose id is the edge's target. If the source id or the
  target id is the id of no node, \<^const>\<open>NetworkEdge\<close> throws "Missing source or target";
  when both are ids of nodes, the scan resolves a source node and a target node of the
  node set whose ids are the edge's source and target, and that error is not thrown.
\<close>

theorem edge_endpoints_resolved:
  "scan_nodes (source props) (target props) nodes (None, None) =
     (find (\<lambda>n. node_id n = source props) nodes, find (\<lambda>n. node_id n = target props) nodes)
   \<and> (source props \<notin> node_id ` set nodes \<or> target props \<notin> node_id ` set nodes
        \<longrightarrow> NetworkEdge g nodes props s = Inl MissingSourceOrTarget)
   \<and> (source props \<in> node_id ` set nodes \<and> target props \<in> node_id ` set nodes
        \<longrightarrow> (\<exists>sourceNode targetNode.
               scan_nodes (source props) (target props) nodes (None, None)
                 = (Some sourceNode, Some targetNode)
               \<and> sourceNode \<in> set nodes \<and> node_id sourceNode = source props
               \<and> targetNode \<in> set nodes \<and> node_id targetNode = target props
               \<and> NetworkEdge g nodes props s \<noteq> Inl MissingSourceOrTarget))"
proof (intro conjI impI)
  show "scan_nodes (source props) (target props) nodes (None, None) =
     (find (\<lambda>n. node_id n = source props) nodes, find (\<lambda>n. node_id n = target props) nodes)"
    by (rule scan_nodes_find)
next
  assume "source props \<notin> node_id ` set nodes \<or> target props \<notin> node_id ` set nodes"
  then have "find (\<lambda>n. node_id n = source props) nodes = None
             \<or> find (\<lambda>n. node_id n = target props) nodes = None"
    by (simp add: find_None_image)
  then show "NetworkEdge g nodes props s = Inl MissingSourceOrTarget"
    by (auto simp: NetworkEdge_def scan_nodes_find split: option.splits)
next
  assume "source props \<in> node_id ` set nodes \<and> target props \<in> node_id ` set nodes"
  then obtain sn tn where
    sn: "find (\<lambda>n. node_id n = source props) nodes = Some sn" and
    tn: "find (\<lambda>n. node_id n = target props) nodes = Some tn"
    using find_None_image[of node_id "source props" nodes]
      find_None_image[of node_id "target props" nodes] by auto
  have "sn \<in> set nodes \<and> node_id sn = source props \<and> tn \<in> set nodes \<and> node_id tn = target props"
    using sn tn by (auto simp: find_Some_iff)
  moreover have "NetworkEdge g nodes props s \<noteq> Inl MissingSourceOrTarget"
    by (simp add: NetworkEdge_def scan_nodes_find sn tn split: option.splits)
  ultimately show "\<exists>sourceNode targetNode.
               scan_nodes (source props) (target props) nodes (None, None)
                 = (Some sourceNode, Some targetNode)
               \<and> sourceNode \<in> set nodes \<and> node_id sourceNode = source props
               \<and> targetNode \<in> set nodes \<and> node_id targetNode = target props
               \<and> NetworkEdge g nodes props s \<noteq> Inl MissingSourceOrTarget"
    by (simp add: scan_nodes_find sn tn)
qed

theorem edge_endpoints_resolved_witness:
  "NetworkEdge isNestedNetworkItem example_nodes \<lparr>source = ''sw-switch'', target = ''gone''\<rparr>
      initial_state = Inl MissingSourceOrTarget
   \<and> scan_nodes (source example_edge) (target example_edge) example_nodes (None, None)
     = (Some (hd example_nodes), Some (hd (tl example_nodes)))
   \<and> NetworkEdge isNestedNetworkItem example_nodes example_edge initial_state
     \<noteq> Inl MissingSourceOrTarget"
  using edge_endpoints_resolved [of "\<lparr>source = ''sw-switch'', target = ''gone''\<rparr>"
      example_nodes isNestedNetworkItem initial_state]
    edge_endpoints_resolved [of example_edge example_nodes isNestedNetworkItem initial_state]
  by (simp add: example_nodes_def example_edge_def)

section \<open>NodeRenderer\<close>

text \<open>
  C6. For every node, \<^const>\<open>NetworkNode\<close> renders a hyperlink (\<^verbatim>\<open>a\<close>) if and only if the
  item has a url, which the component tests as \<^verbatim>\<open>data.item.url\<close> being truthy: the url is
  there and is not the empty string. In that case the link props are \<^verbatim>\<open>href\<close> (the url),
  \<^verbatim>\<open>target="_blank"\<close> and \<^verbatim>\<open>rel="noopener noreferrer"\<close>. Otherwise the node is a \<^verbatim>\<open>div\<close> with
  no link props.
\<close>

theorem node_link_iff_url:
  "(element (NetworkNode edges props) = ''a'')
     = (\<exists>href. url (item (props_data props)) = Some href \<and> href \<noteq> [])
   \<and> (\<forall>href. url (item (props_data props)) = Some href \<and> href \<noteq> [] \<longrightarrow>
         element (NetworkNode edges props) = ''a''
       \<and> linkProps (NetworkNode edges props) =
           [(''href'', href), (''target'', ''_blank''), (''rel'', ''noopener noreferrer'')])
   \<and> (url (item (props_data props)) = None \<or> url (item (props_data props)) = Some [] \<longrightarrow>
         element (NetworkNode edges props) = ''div''
       \<and> linkProps (NetworkNode edges props) = [])"
  by (cases "url (item (props_data props))")
     (auto simp: NetworkNode_def Let_def split: prod.splits)

theorem node_link_iff_url_witness:
  "element (NetworkNode [] example_link_props) = ''a''
   \<and> linkProps (NetworkNode [] example_link_props)
     = [(''href'', ''https://example.org/cam''), (''target'', ''_blank''),
        (''rel'', ''noopener noreferrer'')]
   \<and> element (NetworkNode [] example_props) = ''div''
   \<and> linkProps (NetworkNode [] example_props) = []"
  using node_link_iff_url [of "[]" example_link_props] node_link_iff_url [of "[]" example_props]
  by (simp add: example_link_props_def example_props_def)

text \<open>
  C7, as amended. \<^const>\<open>NetworkNode\<close> renders the target handle exactly when some edge has
  the node's id as its target or the node is connectable, and the source handle exactly
  when some edge has the node's id as its source or the node is connectable. The scan with
  its early exit gives the first edge towards the node and the first edge from it, so it
  finds a target edge exactly when one exists, and a source edge exactly when one exists.
\<close>

theorem node_handles:
  "(targetHandle (NetworkNode edges props) \<noteq> None)
     = ((\<exists>e\<in>set edges. target e = props_id props) \<or> isConnectable props)
   \<and> (sourceHandle (NetworkNode edges props) \<noteq> None)
     = ((\<exists>e\<in>set edges. source e = props_id props) \<or> isConnectable props)
   \<and> scan_edges (props_id props) edges (None, None)
     = (find (\<lambda>e. target e = props_id props) edges, find (\<lambda>e. source e = props_id props) edges)
   \<and> (fst (scan_edges (props_id props) edges (None, None)) \<noteq> None)
     = (\<exists>e\<in>set edges. target e = props_id props)
   \<and> (snd (scan_edges (props_id props) edges (None, None)) \<noteq> None)
     = (\<exists>e\<in>set edges. source e = props_id props)"
proof -
  have t: "(find (\<lambda>e. target e = props_id props) edges \<noteq> None)
           = (\<exists>e\<in>set edges. target e = props_id props)"
    by (rule find_Some_ex)
  have s: "(find (\<lambda>e. source e = props_id props) edges \<noteq> None)
           = (\<exists>e\<in>set edges. source e = props_id props)"
    by (rule find_Some_ex)
  show ?thesis
    unfolding t[symmetric] s[symmetric]
    by (simp add: NetworkNode_def scan_edges_find Let_def)
qed

theorem node_handles_connectable_counterexample:
  "''cam'' \<notin> target ` set [\<lparr>source = ''sw'', target = ''mic''\<rparr>]
   \<and> ''cam'' \<notin> source ` set [\<lparr>source = ''sw'', target = ''mic''\<rparr>]
   \<and> targetHandle (NetworkNode [\<lparr>source = ''sw'', target = ''mic''\<rparr>]
      \<lparr>props_id = ''cam'',
       props_data = \<lparr>label = ''cam (camera)'',
                     item = NetworkItem ''cam'' Camera ''m'' None None None\<rparr>,
       targetPosition = None, sourcePosition = None, isConnectable = True\<rparr>)
     = Some \<lparr>handle_type = ''target'', handle_position = Top, handle_isConnectable = True\<rparr>
   \<and> sourceHandle (NetworkNode [\<lparr>source = ''sw'', target = ''mic''\<rparr>]
      \<lparr>props_id = ''cam'',
       props_data = \<lparr>label = ''cam (camera)'',
                     item = NetworkItem ''cam'' Camera ''m'' None None None\<rparr>,
       targetPosition = None, sourcePosition = None, isConnectable = True\<rparr>)
     = Some \<lparr>handle_type = ''source'', handle_position = Bottom, handle_isConnectable = True\<rparr>"
  by (simp add: NetworkNode_def)

theorem node_handles_witness:
  "targetHandle (NetworkNode [example_edge] example_props)
     = Some \<lparr>handle_type = ''target'', handle_position = Top, handle_isConnectable = False\<rparr>
   \<and> sourceHandle (NetworkNode [example_edge] example_props) = None
   \<and> scan_edges ''cam-camera'' [example_edge] (None, None) = (Some example_edge, None)"
  using node_handles [of "[example_edge]" example_props]
  by (simp add: NetworkNode_def example_props_def example_edge_def)

section \<open>The focusability attribute of the parent element\<close>

text \<open>
  C8. The group of an edge is mounted under a parent element and then unmounted. On mount
  the parent gets the attribute \<^verbatim>\<open>tabindex="-1"\<close> only if it had no \<^verbatim>\<open>tabindex\<close>, and the
  stored cleanup records whether it did; on unmount the attribute is removed exactly when
  the mount had set it. After the cycle the attributes of the parent are what they were:
  a parent that had a \<^verbatim>\<open>tabindex\<close> keeps it, one that had none has none. No other element
  of the document changes.
\<close>

theorem tabindex_scoped:
  assumes mount: "ref k (Some \<lparr>parentElement = Some p\<rparr>) (None, d) = (mounted, d1)"
    and unmount: "ref k' None (mounted, d1) = (unmounted, d2)"
  shows "(hasAttribute (d p) ''tabindex'' \<longrightarrow>
            attributes (d1 p) = attributes (d p)
          \<and> map_option setTabIndex mounted = Some False)
       \<and> (\<not> hasAttribute (d p) ''tabindex'' \<longrightarrow>
            attributes (d1 p) = attributes (d p) @ [(''tabindex'', ''-1'')]
          \<and> map_option setTabIndex mounted = Some True)
       \<and> attributes (d2 p) = attributes (d p)
       \<and> hasAttribute (d2 p) ''tabindex'' = hasAttribute (d p) ''tabindex''
       \<and> unmounted = None
       \<and> (q \<noteq> p \<longrightarrow> d1 q = d q \<and> d2 q = d q)"
proof (cases "hasAttribute (d p) ''tabindex''")
  case True
  have m: "mounted = Some \<lparr>cleanup_parent = p, cleanup_closures = k, setTabIndex = False\<rparr>"
    and d1: "d1 = d(p := with_listeners k (d p))"
    using mount mount_keeps[of d p k, OF True] by simp_all
  have u: "unmounted = None" and d2: "d2 = d1(p := without_listeners k (d1 p))"
    using unmount unfolding m unmount_runs by simp_all
  show ?thesis
    by (simp add: True m u d1 d2 hasAttribute_attributes)
next
  case False
  then have absent: "map_of (attributes (d p)) ''tabindex'' = None"
    by (simp add: hasAttribute_def)
  have m: "mounted = Some \<lparr>cleanup_parent = p, cleanup_closures = k, setTabIndex = True\<rparr>"
    and d1: "d1 = d(p := setAttribute ''tabindex'' ''-1'' (with_listeners k (d p)))"
    using mount mount_grants[of d p k, OF False] by simp_all
  have u: "unmounted = None"
    and d2: "d2 = d1(p := removeAttribute ''tabindex'' (without_listeners k (d1 p)))"
    using unmount unfolding m unmount_runs by simp_all
  have granted: "attributes (d1 p) = attributes (d p) @ [(''tabindex'', ''-1'')]"
    by (simp add: d1 setAttribute_def update_absent absent)
  have restored: "attributes (d2 p) = attributes (d p)"
    by (simp add: d2 d1 removeAttribute_def setAttribute_def grant_revoke absent)
  show ?thesis
    using False granted restored
    by (simp add: m u hasAttribute_attributes[OF restored]) (simp add: d1 d2)
qed

theorem tabindex_scoped_witness:
  "attributes (snd (ref 1 (Some \<lparr>parentElement = Some 0\<rparr>)
       (None, example_document [(''class'', ''edge'')])) 0)
     = [(''class'', ''edge''), (''tabindex'', ''-1'')]
   \<and> attributes (snd (ref 2 None (ref 1 (Some \<lparr>parentElement = Some 0\<rparr>)
       (None, example_document [(''class'', ''edge'')]))) 0)
     = [(''class'', ''edge'')]
   \<and> attributes (snd (ref 1 (Some \<lparr>parentElement = Some 0\<rparr>)
       (None, example_document [(''tabindex'', ''0'')])) 0)
     = [(''tabindex'', ''0'')]
   \<and> attributes (snd (ref 2 None (ref 1 (Some \<lparr>parentElement = Some 0\<rparr>)
       (None, example_document [(''tabindex'', ''0'')]))) 0)
     = [(''tabindex'', ''0'')]"
  using tabindex_scoped [where k = 1 and p = 0 and k' = 2 and q = 1
          and d = "example_document [(''class'', ''edge'')]",
          OF surjective_pairing surjective_pairing]
    tabindex_scoped [where k = 1 and p = 0 and k' = 2 and q = 1
          and d = "example_document [(''tabindex'', ''0'')]",
          OF surjective_pairing surjective_pairing]
  by (simp add: hasAttribute_def example_document_def)

section \<open>StatsAggregator and the shape of the tree\<close>

text \<open>
  C9. The counts depend only on the multiset of the types of the devices of the tree, not
  on its shape: two trees whose devices have the same types, each as often, have the same
  \<^const>\<open>toCounts\<close> and the same \<^const>\<open>stats\<close>, at whatever depth the devices are. So a
  device moved to another depth contributes the same to the totals.
\<close>

theorem toCounts_shape_invariant:
  assumes "mset (map type (all_devices t1)) = mset (map type (all_devices t2))"
  shows "toCounts t1 = toCounts t2 \<and> stats t1 = stats t2"
proof -
  have "device_count k t1 = device_count k t2" for k
    by (simp only: device_count_def assms)
  then have "toCounts t1 = toCounts t2"
    by (simp add: toCounts_counts_of)
  then show ?thesis
    by (simp add: stats_def)
qed

theorem toCounts_shape_invariant_witness:
  "mset (map type (all_devices example_chain)) = mset (map type (all_devices example_network))
   \<and> toCounts example_chain = toCounts example_network
   \<and> stats example_chain = [(Switch, Num 1), (Camera, Num 1), (Microphone, Num 1)]
   \<and> stats example_network = [(Switch, Num 1), (Camera, Num 1), (Microphone, Num 1)]"
proof -
  have h: "mset (map type (all_devices example_chain))
           = mset (map type (all_devices example_network))"
    by (simp add: example_chain_def example_network_def all_devices_Cons all_devices_Nil)
  have s: "stats example_chain = [(Switch, Num 1), (Camera, Num 1), (Microphone, Num 1)]"
    by (simp add: example_chain_def stats_def toCounts_fold toCounts_step_def init_counts_def
          add_nested_def typeSafeObjectKeys_nodeTypes_def)
  show ?thesis
    using toCounts_shape_invariant [OF h] h s by simp
qed

section \<open>The target of an edge must be a nested item\<close>

text \<open>
  C10. When both end nodes of an edge are found, \<^const>\<open>NetworkEdge\<close> throws "Invalid target"
  if the type guard rejects the item of the target node, and only then. An edge whose
  target has no connection is never rendered, whatever the guard: the render ends in an
  error, and with the guard of the device data, which accepts the items that carry a
  connection, the error is "Invalid target".
\<close>

theorem edge_invalid_target:
  assumes "find (\<lambda>n. node_id n = source props) nodes = Some sourceNode"
    and "find (\<lambda>n. node_id n = target props) nodes = Some targetNode"
  shows "(\<not> g (item (node_data targetNode)) \<longrightarrow> NetworkEdge g nodes props s = Inl InvalidTarget)
   \<and> (connection (item (node_data targetNode)) = None \<longrightarrow>
        NetworkEdge g nodes props s \<in> {Inl InvalidTarget, Inl TypeError}
        \<and> NetworkEdge isNestedNetworkItem nodes props s = Inl InvalidTarget)
   \<and> (g (item (node_data targetNode)) \<longrightarrow> NetworkEdge g nodes props s \<noteq> Inl InvalidTarget)"
  by (simp add: NetworkEdge_def scan_nodes_find assms isNestedNetworkItem_def split: option.splits)

theorem edge_invalid_target_witness:
  "NetworkEdge isNestedNetworkItem example_nodes
      \<lparr>source = ''cam-camera'', target = ''sw-switch''\<rparr> initial_state = Inl InvalidTarget
   \<and> NetworkEdge (\<lambda>it. True) example_nodes
      \<lparr>source = ''cam-camera'', target = ''sw-switch''\<rparr> initial_state = Inl TypeError"
proof -
  have s: "find (\<lambda>n. node_id n = source \<lparr>source = ''cam-camera'', target = ''sw-switch''\<rparr>)
             example_nodes = Some (hd (tl example_nodes))"
    by (simp add: example_nodes_def)
  have t: "find (\<lambda>n. node_id n = target \<lparr>source = ''cam-camera'', target = ''sw-switch''\<rparr>)
             example_nodes = Some (hd example_nodes)"
    by (simp add: example_nodes_def)
  show ?thesis
    using edge_invalid_target [OF s t, of isNestedNetworkItem initial_state]
      edge_invalid_target [OF s t, of "\<lambda>it. True" initial_state]
    by (simp add: isNestedNetworkItem_def NetworkEdge_def example_nodes_def)
qed

end
